theory Spec2Isabelle
  imports Main
begin

section \<open>JavaScript values and string primitives used by csvManipulation.js\<close>

text \<open>
  A JavaScript string is modelled as a \<^typ>\<open>string\<close>; a character stands for a code unit
  below 256 (so the white space characters are those below 256). A JavaScript number is
  modelled as \<open>Num i\<close> for the integer \<open>i\<close> or as
  \<open>NaN\<close>. The program only ever adds and subtracts values that \<open>parseInt\<close> and
  \<open>charCodeAt\<close> produce, so every number it computes is an integer or \<open>NaN\<close>; the
  integers are kept exact (as the doubles of the program are below \<open>2^53\<close>).
\<close>

datatype jsnum = Num int | NaN

fun jsAdd :: "jsnum \<Rightarrow> jsnum \<Rightarrow> jsnum" where
  "jsAdd (Num a) (Num b) = Num (a + b)"
| "jsAdd _ _ = NaN"

fun jsSub :: "jsnum \<Rightarrow> jsnum \<Rightarrow> jsnum" where
  "jsSub (Num a) (Num b) = Num (a - b)"
| "jsSub _ _ = NaN"

text \<open>The comparisons \<open>x >= y\<close> and \<open>x < y\<close>: false as soon as one side is \<open>NaN\<close>.\<close>

fun jsGe :: "jsnum \<Rightarrow> jsnum \<Rightarrow> bool" where
  "jsGe (Num a) (Num b) = (a \<ge> b)"
| "jsGe _ _ = False"

fun jsLt :: "jsnum \<Rightarrow> jsnum \<Rightarrow> bool" where
  "jsLt (Num a) (Num b) = (a < b)"
| "jsLt _ _ = False"

text \<open>White space and line terminators (the class \<open>\s\<close>, and what \<open>trim\<close> removes).\<close>

definition isWhiteSpace :: "char \<Rightarrow> bool" where
  "isWhiteSpace c = ((of_char c :: nat) \<in> {9, 10, 11, 12, 13, 32, 160})"

definition isDigit :: "char \<Rightarrow> bool" where
  "isDigit c = (48 \<le> (of_char c :: nat) \<and> (of_char c :: nat) \<le> 57)"

definition isUpper :: "char \<Rightarrow> bool" where
  "isUpper c = (65 \<le> (of_char c :: nat) \<and> (of_char c :: nat) \<le> 90)"

definition trimStart :: "string \<Rightarrow> string" where
  "trimStart s = dropWhile isWhiteSpace s"

definition trim :: "string \<Rightarrow> string" where
  "trim s = rev (dropWhile isWhiteSpace (rev (dropWhile isWhiteSpace s)))"

text \<open>\<open>s.replace(/\s+/g, ' ')\<close>: every maximal run of white space becomes one space.\<close>

function collapseSpaces :: "string \<Rightarrow> string" where
  "collapseSpaces [] = []"
| "collapseSpaces (c # cs) =
     (if isWhiteSpace c then CHR '' '' # collapseSpaces (dropWhile isWhiteSpace cs)
      else c # collapseSpaces cs)"
  by pat_completeness auto
termination
  by (relation "measure length") (auto simp: length_dropWhile_le less_Suc_eq_le)

text \<open>
  \<open>s.split(sep)\<close>. With a non-empty separator the result always has at least one
  element (\<open>"".split(",")\<close> is \<open>[""]\<close>); with the empty separator the string is cut
  into its characters.
\<close>

function splitFrom :: "string \<Rightarrow> string \<Rightarrow> string \<Rightarrow> string list" where
  "splitFrom sep acc [] = [rev acc]"
| "splitFrom sep acc (c # cs) =
     (if sep \<noteq> [] \<and> take (length sep) (c # cs) = sep
      then rev acc # splitFrom sep [] (drop (length sep) (c # cs))
      else splitFrom sep (c # acc) cs)"
  by pat_completeness auto
termination
  by (relation "measure (\<lambda>(sep, acc, s). length s)") auto

definition split :: "string \<Rightarrow> string \<Rightarrow> string list" where
  "split sep s = (if sep = [] then map (\<lambda>c. [c]) s else splitFrom sep [] s)"

text \<open>\<open>xs.join(sep)\<close> on an array of strings.\<close>

fun join :: "string \<Rightarrow> string list \<Rightarrow> string" where
  "join sep [] = []"
| "join sep [x] = x"
| "join sep (x # y # ys) = x @ sep @ join sep (y # ys)"

text \<open>
  \<open>parseInt(s)\<close> with no radix: leading white space is skipped, one sign is read, a
  prefix \<open>0x\<close> or \<open>0X\<close> selects radix 16, and the longest run of digits of the radix is
  the value; with no digit the result is \<open>NaN\<close>. Whatever follows the digits is ignored.
\<close>

definition digitValue :: "char \<Rightarrow> nat option" where
  "digitValue c =
     (let n = (of_char c :: nat) in
      if 48 \<le> n \<and> n \<le> 57 then Some (n - 48)
      else if 97 \<le> n \<and> n \<le> 102 then Some (n - 87)
      else if 65 \<le> n \<and> n \<le> 70 then Some (n - 55)
      else None)"

definition isDigitOf :: "nat \<Rightarrow> char \<Rightarrow> bool" where
  "isDigitOf radix c = (case digitValue c of None \<Rightarrow> False | Some d \<Rightarrow> d < radix)"

definition digitsValue :: "nat \<Rightarrow> string \<Rightarrow> int" where
  "digitsValue radix ds = foldl (\<lambda>a c. a * int radix + int (the (digitValue c))) 0 ds"

definition stripSign :: "string \<Rightarrow> int \<times> string" where
  "stripSign s =
     (case s of
        [] \<Rightarrow> (1, [])
      | c # cs \<Rightarrow> if c = CHR ''-'' then (-1, cs) else if c = CHR ''+'' then (1, cs) else (1, s))"

definition parseInt :: "string \<Rightarrow> jsnum" where
  "parseInt s =
     (let (sign, t) = stripSign (trimStart s);
          (radix, u) = (if take 2 t = ''0x'' \<or> take 2 t = ''0X'' then (16, drop 2 t) else (10, t));
          ds = takeWhile (isDigitOf radix) u
      in if ds = [] then NaN else Num (sign * digitsValue radix ds))"

text \<open>
  \<open>isNaN(s)\<close> on a string: \<open>Number(s)\<close> is \<open>NaN\<close> exactly when \<open>s\<close>, with the white space
  around it removed, is not a numeric literal. The numeric literals are the empty
  string, \<open>0x\<close>, \<open>0o\<close> and \<open>0b\<close> literals (no sign), and signed decimal literals:
  \<open>Infinity\<close>, digits with an optional fraction, or a fraction alone, each with an
  optional exponent.
\<close>

definition isDigits :: "string \<Rightarrow> bool" where
  "isDigits s = (s \<noteq> [] \<and> list_all isDigit s)"

definition isExponentPart :: "string \<Rightarrow> bool" where
  "isExponentPart s =
     (case s of
        [] \<Rightarrow> False
      | e # r \<Rightarrow> (e = CHR ''e'' \<or> e = CHR ''E'') \<and> isDigits (snd (stripSign r)))"

definition isUnsignedDecimalLiteral :: "string \<Rightarrow> bool" where
  "isUnsignedDecimalLiteral s =
     (s = ''Infinity'' \<or>
      (let ip = takeWhile isDigit s; r = dropWhile isDigit s in
       case r of
         [] \<Rightarrow> ip \<noteq> []
       | d # r' \<Rightarrow>
           if d = CHR ''.''
           then (let fp = takeWhile isDigit r'; r'' = dropWhile isDigit r' in
                 (ip \<noteq> [] \<or> fp \<noteq> []) \<and> (r'' = [] \<or> isExponentPart r''))
           else ip \<noteq> [] \<and> isExponentPart r))"

definition isNonDecimalLiteral :: "string \<Rightarrow> bool" where
  "isNonDecimalLiteral s =
     (let p = take 2 s; ds = drop 2 s in
      ds \<noteq> [] \<and>
      (((p = ''0x'' \<or> p = ''0X'') \<and> list_all (isDigitOf 16) ds) \<or>
       ((p = ''0o'' \<or> p = ''0O'') \<and> list_all (isDigitOf 8) ds) \<or>
       ((p = ''0b'' \<or> p = ''0B'') \<and> list_all (isDigitOf 2) ds)))"

definition isNumericLiteral :: "string \<Rightarrow> bool" where
  "isNumericLiteral s =
     (s = [] \<or> isNonDecimalLiteral s \<or> isUnsignedDecimalLiteral (snd (stripSign s)))"

definition jsIsNaN :: "string \<Rightarrow> bool" where
  "jsIsNaN s = (\<not> isNumericLiteral (trim s))"

text \<open>A number as \<open>String(x)\<close> and template literals print it.\<close>

function showNat :: "nat \<Rightarrow> string" where
  "showNat n =
     (if n < 10 then [char_of (48 + n)] else showNat (n div 10) @ [char_of (48 + n mod 10)])"
  by pat_completeness auto
termination
  by (relation "measure id") auto

fun showNum :: "jsnum \<Rightarrow> string" where
  "showNum NaN = ''NaN''"
| "showNum (Num i) = (if i < 0 then CHR ''-'' # showNat (nat (- i)) else showNat (nat i))"

text \<open>\<open>s.charCodeAt(0)\<close> (\<open>NaN\<close> on the empty string) and \<open>String.fromCharCode(x)\<close>.\<close>

fun charCodeAt0 :: "string \<Rightarrow> jsnum" where
  "charCodeAt0 [] = NaN"
| "charCodeAt0 (c # _) = Num (of_char c)"

fun fromCharCode :: "jsnum \<Rightarrow> string" where
  "fromCharCode NaN = [char_of (0::nat)]"
| "fromCharCode (Num i) = [char_of i]"

section \<open>The reference resolver\<close>

text \<open>
  \<^verbatim>\<open>function getCellIndices(cellRef) {
    const col = cellRef.charCodeAt(0) - 'A'.charCodeAt(0);
    const row = parseInt(cellRef.slice(1)) - 1;
    return [row, col]; }\<close>
\<close>

definition getCellIndices :: "string \<Rightarrow> jsnum \<times> jsnum" where
  "getCellIndices cellRef =
     (let col = jsSub (charCodeAt0 cellRef) (charCodeAt0 ''A'');
          row = jsSub (parseInt (drop 1 cellRef)) (Num 1)
      in (row, col))"

text \<open>
  The pattern \<^verbatim>\<open>/^[A-Z]+\d{1,2}( [A-Z]+\d{1,2})*$/\<close>. One reference is a non-empty run of
  capital letters followed by one or two digits; the pattern accepts one reference or
  several separated by single spaces. Neither letters nor digits are spaces, so the
  pattern matches exactly when every piece between spaces is one reference.
\<close>

definition isReference :: "string \<Rightarrow> bool" where
  "isReference s =
     (let ls = takeWhile isUpper s; ds = dropWhile isUpper s in
      ls \<noteq> [] \<and> (length ds = 1 \<or> length ds = 2) \<and> list_all isDigit ds)"

definition cellRefRegex_test :: "string \<Rightarrow> bool" where
  "cellRefRegex_test s = list_all isReference (split '' '' s)"

section \<open>The cell evaluator\<close>

text \<open>
  A cell value handed to \<open>evaluateCell\<close> is a string or \<open>undefined\<close> (\<open>None\<close>). The
  grid \<open>initialCells\<close> is an array of arrays of strings. The program's mutable state is
  the \<open>Set\<close> \<open>visitedCells\<close>, shared by all recursive calls, and what has been written with
  \<open>console.error\<close>. \<open>evaluateCell\<close> returns a number or the marker \<open>"#ERR"\<close>; reading
  \<open>initialCells[row][col]\<close> throws a \<open>TypeError\<close> when \<open>initialCells[row]\<close> is
  \<open>undefined\<close>, and gives \<open>undefined\<close> when only the column is missing.
\<close>

type_synonym cell = "string option"
type_synonym grid = "string list list"

datatype outcome = Val jsnum | ERR
datatype exn = TypeError | Error string

record state =
  visitedCells :: "cell set"
  consoleError :: "string list"

definition logError :: "string \<Rightarrow> state \<Rightarrow> state" where
  "logError msg st = st\<lparr>consoleError := consoleError st @ [msg]\<rparr>"

fun arrayIndex :: "'a list \<Rightarrow> jsnum \<Rightarrow> 'a option" where
  "arrayIndex xs NaN = None"
| "arrayIndex xs (Num i) = (if 0 \<le> i \<and> nat i < length xs then Some (xs ! nat i) else None)"

definition lookupCell :: "grid \<Rightarrow> jsnum \<Rightarrow> jsnum \<Rightarrow> exn + cell" where
  "lookupCell initialCells row col =
     (case arrayIndex initialCells row of
        None \<Rightarrow> Inl TypeError
      | Some cells \<Rightarrow> Inr (arrayIndex cells col))"

definition inBounds :: "jsnum \<Rightarrow> jsnum \<Rightarrow> int \<Rightarrow> int \<Rightarrow> bool" where
  "inBounds row col numRows numCols =
     (jsGe row (Num 0) \<and> jsLt row (Num numRows) \<and> jsGe col (Num 0) \<and> jsLt col (Num numCols))"

definition quoted :: "string \<Rightarrow> string" where
  "quoted s = [CHR 0x27] @ s @ [CHR 0x27]"

definition msgCircular :: "string \<Rightarrow> string" where
  "msgCircular token = ''Circular dependence detected in cell '' @ quoted token @ ''.Defaulting them to #ERR''"

definition msgOutOfBounds :: "jsnum \<Rightarrow> jsnum \<Rightarrow> string" where
  "msgOutOfBounds row col =
     ''Cell references an out of bounds cell ->'' @
     quoted (fromCharCode (jsAdd (charCodeAt0 ''A'') col) @ showNum (jsAdd row (Num 1))) @
     ''.Defaulting cell value to #ERR''"

definition msgInvalid :: "string \<Rightarrow> string" where
  "msgInvalid token = ''Invalid cell value format -> '' @ quoted token @ ''. Verify. Defaulting to #ERR.''"

text \<open>
  \<^verbatim>\<open>function evaluateCell(cell, initialCells, visitedCells, numRows, numCols)\<close>. The
  function \<open>forTokens\<close> is its loop \<^verbatim>\<open>for (const token of tokens)\<close>, with the tokens still
  to be processed and the running \<open>sum\<close> (here \<open>acc\<close>). In the order of the source, a token
  is: blank (\<open>#ERR\<close>); a match of the pattern, which is resolved and then is out of
  bounds (\<open>#ERR\<close>), or refers to a cell whose text is in \<open>visitedCells\<close> (\<open>#ERR\<close>), or is
  added to \<open>visitedCells\<close> and evaluated recursively, where \<open>#ERR\<close> is returned as it is
  and a number is added to the sum before the text is deleted from \<open>visitedCells\<close> and
  the loop goes on; a token that \<open>isNaN\<close> accepts, whose \<open>parseInt\<close> is added to the sum;
  or anything else (\<open>#ERR\<close>). Every return of \<open>#ERR\<close> but the propagated one writes its
  diagnostic first. After the last token the sum is returned.
\<close>

function evaluateCell :: "cell \<Rightarrow> grid \<Rightarrow> state \<Rightarrow> int \<Rightarrow> int \<Rightarrow> (exn + outcome) \<times> state"
  and forTokens :: "string list \<Rightarrow> jsnum \<Rightarrow> grid \<Rightarrow> state \<Rightarrow> int \<Rightarrow> int \<Rightarrow> (exn + outcome) \<times> state"
where
  "evaluateCell cell initialCells st numRows numCols =
     (case cell of
        None \<Rightarrow> (Inr ERR, logError ''Empty cell value found. Defaulting to #ERR'' st)
      | Some text \<Rightarrow> forTokens (split '' '' text) (Num 0) initialCells st numRows numCols)"
| "forTokens [] acc initialCells st numRows numCols = (Inr (Val acc), st)"
| "forTokens (token # tokens) acc initialCells st numRows numCols =
     (if trim token = [] then (Inr ERR, logError ''Empty token found. Defaulting to #ERR'' st)
      else if cellRefRegex_test token then
        (case getCellIndices token of
           (referencedCellRow, referencedCellCol) \<Rightarrow>
             if inBounds referencedCellRow referencedCellCol numRows numCols then
               (case lookupCell initialCells referencedCellRow referencedCellCol of
                  Inl e \<Rightarrow> (Inl e, st)
                | Inr referencedCell \<Rightarrow>
                    if referencedCell \<in> visitedCells st
                    then (Inr ERR, logError (msgCircular token) st)
                    else
                      (case evaluateCell referencedCell initialCells
                              (st\<lparr>visitedCells := insert referencedCell (visitedCells st)\<rparr>)
                              numRows numCols of
                         (Inl e, st') \<Rightarrow> (Inl e, st')
                       | (Inr ERR, st') \<Rightarrow> (Inr ERR, st')
                       | (Inr (Val refValue), st') \<Rightarrow>
                           forTokens tokens (jsAdd acc refValue) initialCells
                             (st'\<lparr>visitedCells := visitedCells st' - {referencedCell}\<rparr>)
                             numRows numCols))
             else (Inr ERR, logError (msgOutOfBounds referencedCellRow referencedCellCol) st))
      else if \<not> jsIsNaN token then
        forTokens tokens (jsAdd acc (parseInt token)) initialCells st numRows numCols
      else (Inr ERR, logError (msgInvalid token) st))"
  by pat_completeness auto


text \<open>
  Every value that \<open>initialCells[row][col]\<close> can give: the strings of the grid and
  \<open>undefined\<close>.
\<close>

definition cellValues :: "grid \<Rightarrow> cell set" where
  "cellValues initialCells = insert None (Some ` (\<Union>cells\<in>set initialCells. set cells))"

lemma finite_cellValues: "finite (cellValues g)"
  by (simp add: cellValues_def)

lemma arrayIndex_in_set: "arrayIndex xs i = Some x \<Longrightarrow> x \<in> set xs"
  by (cases i) (auto split: if_splits)

lemma lookupCell_in_cellValues: "lookupCell g row col = Inr b \<Longrightarrow> b \<in> cellValues g"
  by (cases b) (auto simp: lookupCell_def cellValues_def split: option.splits dest!: arrayIndex_in_set)

text \<open>
  Wherever the recursion is defined, a call that returns a number leaves the visited set
  as it found it. The loop goes on with the set the recursive call returned, so this is
  needed before termination can be shown.
\<close>

lemma visited_restored_partial:
  "evaluateCell_forTokens_dom (Inl (cell, g, st, nr, nc)) \<Longrightarrow>
     evaluateCell cell g st nr nc = (Inr (Val v), st') \<Longrightarrow> visitedCells st' = visitedCells st"
  "evaluateCell_forTokens_dom (Inr (ts, a, g, st, nr, nc)) \<Longrightarrow>
     forTokens ts a g st nr nc = (Inr (Val v), st') \<Longrightarrow> visitedCells st' = visitedCells st"
proof (induct cell g st nr nc and ts a g st nr nc arbitrary: v st' and v st'
       rule: evaluateCell_forTokens.pinduct)
  case (1 cell initialCells st numRows numCols)
  note eq = evaluateCell.psimps[OF "1.hyps"(1)]
  show ?case
  proof (cases cell)
    case None
    with "1.prems" eq show ?thesis by simp
  next
    case (Some content)
    with "1.prems" eq
    have "forTokens (split '' '' content) (Num 0) initialCells st numRows numCols = (Inr (Val v), st')"
      by simp
    then show ?thesis by (rule "1.hyps"(2)[OF Some])
  qed
next
  case (2 acc initialCells st numRows numCols)
  then show ?case
    using forTokens.psimps(1)[OF "2.hyps"(1)] by simp
next
  case (3 token tokens acc initialCells st numRows numCols)
  note eq = forTokens.psimps(2)[OF "3.hyps"(1)]
  note res = "3.prems"
  show ?case
  proof (cases "trim token = []")
    case True
    with res eq show ?thesis by simp
  next
    case nonempty: False
    show ?thesis
    proof (cases "cellRefRegex_test token")
      case False
      show ?thesis
      proof (cases "jsIsNaN token")
        case True
        with res eq nonempty False show ?thesis by simp
      next
        case nn: False
        from res eq nonempty False nn
        have "forTokens tokens (jsAdd acc (parseInt token)) initialCells st numRows numCols = (Inr (Val v), st')"
          by simp
        then show ?thesis by (rule "3.hyps"(4)[OF nonempty False nn])
      qed
    next
      case True
      obtain x y where xy: "getCellIndices token = (x, y)" by (cases "getCellIndices token")
      show ?thesis
      proof (cases "inBounds x y numRows numCols")
        case False
        with res eq nonempty True xy show ?thesis by simp
      next
        case inb: True
        show ?thesis
        proof (cases "lookupCell initialCells x y")
          case (Inl e)
          with res eq nonempty True xy inb show ?thesis by simp
        next
          case (Inr b)
          show ?thesis
          proof (cases "b \<in> visitedCells st")
            case True
            with res eq nonempty \<open>cellRefRegex_test token\<close> xy inb Inr show ?thesis by simp
          next
            case nb: False
            let ?st1 = "st\<lparr>visitedCells := insert b (visitedCells st)\<rparr>"
            obtain r st2 where rec: "evaluateCell b initialCells ?st1 numRows numCols = (r, st2)"
              by (cases "evaluateCell b initialCells ?st1 numRows numCols")
            from res eq nonempty True xy inb Inr nb rec
            have res2: "(case r of Inl e \<Rightarrow> (Inl e, st2)
                   | Inr (Val refValue) \<Rightarrow> forTokens tokens (jsAdd acc refValue) initialCells
                           (st2\<lparr>visitedCells := visitedCells st2 - {b}\<rparr>) numRows numCols
                   | Inr ERR \<Rightarrow> (Inr ERR, st2)) = (Inr (Val v), st')"
              by simp
            then obtain w where w: "r = Inr (Val w)"
              and rest: "forTokens tokens (jsAdd acc w) initialCells (st2\<lparr>visitedCells := visitedCells st2 - {b}\<rparr>) numRows numCols = (Inr (Val v), st')"
              by (cases r; simp split: outcome.splits)
            have "visitedCells st2 = visitedCells ?st1"
              using rec w by (intro "3.hyps"(2)[OF nonempty True xy[symmetric] inb Inr nb]) simp
            moreover have "visitedCells st' = visitedCells (st2\<lparr>visitedCells := visitedCells st2 - {b}\<rparr>)"
              by (rule "3.hyps"(3)[OF nonempty True xy[symmetric] inb Inr nb rec[symmetric] w refl rest])
            ultimately show ?thesis using nb by auto
          qed
        qed
      qed
    qed
  qed
qed


text \<open>
  Termination: a recursive call into a referenced cell adds that cell's content, which
  was not in the visited set, to the set, so the number of cell values outside the set
  drops; inside one call the list of tokens left gets shorter while the set stays the
  same.
\<close>

lemma evaluateCell_forTokens_dom_all: "All evaluateCell_forTokens_dom"
proof (rule "evaluateCell_forTokens.termination" [where R = "inv_image (less_than <*lex*> less_than) (\<lambda>x. case x of
      Inl (cell, g, st, nr, nc) \<Rightarrow>
        (card (cellValues g - visitedCells st),
         Suc (case cell of None \<Rightarrow> 0 | Some t \<Rightarrow> length (split '' '' t)))
    | Inr (ts, a, g, st, nr, nc) \<Rightarrow> (card (cellValues g - visitedCells st), length ts))"], goal_cases)
  case 1
  show ?case by (intro wf_inv_image wf_lex_prod wf_less_than)
next
  case (2 cell initialCells st numRows numCols x2)
  then show ?case by simp
next
  case (3 token tokens acc initialCells st numRows numCols x y b)
  have "b \<in> cellValues initialCells" using 3 by (auto dest: lookupCell_in_cellValues)
  with \<open>b \<notin> visitedCells st\<close>
  have "card (cellValues initialCells - insert b (visitedCells st)) < card (cellValues initialCells - visitedCells st)"
    by (intro psubset_card_mono) (auto simp: finite_cellValues)
  then show ?case by simp
next
  case (4 token tokens acc initialCells st numRows numCols x y b xa ya ba x1)
  from 4(7) 4(8) 4(9)
  have "evaluateCell b initialCells (st\<lparr>visitedCells := insert b (visitedCells st)\<rparr>) numRows numCols
          = (Inr (Val x1), ya)"
    by simp
  from visited_restored_partial(1)[OF 4(10) this]
  have "visitedCells ya = insert b (visitedCells st)" by simp
  with \<open>b \<notin> visitedCells st\<close> have "visitedCells ya - {b} = visitedCells st" by auto
  then show ?case by simp
next
  case (5 token tokens acc initialCells st numRows numCols)
  then show ?case by simp
qed

termination evaluateCell
  by (rule evaluateCell_forTokens_dom_all)

declare evaluateCell.simps [simp del] forTokens.simps(2) [simp del]

section \<open>The grid builder and the evaluation driver\<close>

text \<open>
  \<^verbatim>\<open>function initializeCells(numRows, numCols)\<close>: an array of \<open>numRows\<close> arrays of
  \<open>numCols\<close> empty strings; it throws on a count that is not positive.
\<close>

definition initializeCells :: "int \<Rightarrow> int \<Rightarrow> exn + grid" where
  "initializeCells numRows numCols =
     (if numRows \<le> 0 \<or> numCols \<le> 0 then Inl (Error ''Invalid number of rows or columns'')
      else Inr (replicate (nat numRows) (replicate (nat numCols) [])))"

text \<open>\<open>values[col].trim().replace(/\s+/g, ' ')\<close>\<close>

definition normalizeCell :: "string \<Rightarrow> string" where
  "normalizeCell s = collapseSpaces (trim s)"

text \<open>
  \<^verbatim>\<open>function populateCells(rows, numRows, numCols, initialCells)\<close>. The inner loop runs
  over the columns \<open>0 .. numCols - 1\<close> and stores \<open>values[col]\<close> where it is defined; the
  outer loop runs over the rows \<open>0 .. numRows - 1\<close>. Reading \<open>rows[row]\<close> or
  \<open>initialCells[row]\<close> beyond the array throws a \<open>TypeError\<close>. The function is only
  called by \<open>processCSV\<close>, on the array that \<open>initializeCells\<close> made, whose rows have
  \<open>numCols\<close> entries, so that an assignment \<open>initialCells[row][col] = ...\<close> never extends
  a row.
\<close>

fun populateCols :: "string list \<Rightarrow> nat list \<Rightarrow> string list \<Rightarrow> string list" where
  "populateCols values [] cells = cells"
| "populateCols values (col # cols) cells =
     populateCols values cols
       (if col < length values then cells[col := normalizeCell (values ! col)] else cells)"

fun populateRows :: "string list \<Rightarrow> nat list \<Rightarrow> nat \<Rightarrow> grid \<Rightarrow> exn + grid" where
  "populateRows rows [] numCols initialCells = Inr initialCells"
| "populateRows rows (row # rest) numCols initialCells =
     (if row < length rows \<and> row < length initialCells
      then populateRows rows rest numCols
             (initialCells[row := populateCols (split '','' (rows ! row)) [0..<numCols]
                                     (initialCells ! row)])
      else Inl TypeError)"

definition populateCells :: "string list \<Rightarrow> nat \<Rightarrow> nat \<Rightarrow> grid \<Rightarrow> exn + grid" where
  "populateCells rows numRows numCols initialCells =
     populateRows rows [0..<numRows] numCols initialCells"

text \<open>
  What \<open>processCSV\<close> changes while it runs: the one set \<open>visitedCells\<close> it creates and
  what \<open>evaluateCell\<close> writes with \<open>console.error\<close> (the \<open>state\<close> of the evaluator), and
  what \<open>processCSV\<close> itself prints with \<open>console.log\<close>. The field \<open>calls\<close> is not program
  data: it records every call of \<open>evaluateCell\<close> that \<open>processCSV\<close> makes, as the cell text
  passed, the state on entry and what the call returned.
\<close>

record run =
  evaluator :: state
  consoleLog :: "string list"
  calls :: "(cell \<times> state \<times> (exn + outcome) \<times> state) list"

definition showOutcome :: "outcome \<Rightarrow> string" where
  "showOutcome v = (case v of Val n \<Rightarrow> showNum n | ERR \<Rightarrow> ''#ERR'')"

text \<open>
  The inner loop of \<open>processCSV\<close>:
  \<^verbatim>\<open>for (let col = 0; col < numCols; col++) {
    const evaluatedValue = evaluateCell(values[col].trim().replace(/\s+/g, ' '),
                                        populatedCells, visitedCells, numRows, numCols);
    evaluatedValues.push(evaluatedValue); }\<close>
\<close>

fun evaluateCols ::
  "string list \<Rightarrow> nat list \<Rightarrow> grid \<Rightarrow> int \<Rightarrow> int \<Rightarrow> outcome list \<Rightarrow> run
     \<Rightarrow> (exn + outcome list) \<times> run" where
  "evaluateCols values [] populatedCells numRows numCols evaluatedValues r =
     (Inr evaluatedValues, r)"
| "evaluateCols values (col # cols) populatedCells numRows numCols evaluatedValues r =
     (let cell = Some (normalizeCell (values ! col));
          ret = evaluateCell cell populatedCells (evaluator r) numRows numCols;
          r' = r\<lparr>evaluator := snd ret, calls := calls r @ [(cell, evaluator r, ret)]\<rparr>
      in case fst ret of
           Inl e \<Rightarrow> (Inl e, r')
         | Inr evaluatedValue \<Rightarrow>
             evaluateCols values cols populatedCells numRows numCols
               (evaluatedValues @ [evaluatedValue]) r')"

definition msgInconsistent :: "nat \<Rightarrow> string" where
  "msgInconsistent row =
     ''Fix the csv before proceeding.Inconsistent number of columns in row '' @
     showNum (Num (int row + 1)) @ '' ''"

text \<open>
  The outer loop of \<open>processCSV\<close>: each row is split again and its number of fields is
  compared with \<open>numCols\<close> before its cells are evaluated; a mismatch throws.
\<close>

fun evaluateRows ::
  "string list \<Rightarrow> nat list \<Rightarrow> grid \<Rightarrow> nat \<Rightarrow> nat \<Rightarrow> string list \<Rightarrow> run
     \<Rightarrow> (exn + string list) \<times> run" where
  "evaluateRows rows [] populatedCells numRows numCols result r = (Inr result, r)"
| "evaluateRows rows (row # rest) populatedCells numRows numCols result r =
     (let values = split '','' (rows ! row) in
      if length values \<noteq> numCols
      then (Inl (Error ''Fix the csv before proceeding. Inconsistent number of columns''),
            r\<lparr>evaluator := logError (msgInconsistent row) (evaluator r)\<rparr>)
      else
        (case evaluateCols values [0..<numCols] populatedCells (int numRows) (int numCols) [] r of
           (Inl e, r') \<Rightarrow> (Inl e, r')
         | (Inr evaluatedValues, r') \<Rightarrow>
             evaluateRows rows rest populatedCells numRows numCols
               (result @ [join '','' (map showOutcome evaluatedValues)]) r'))"

text \<open>
  \<^verbatim>\<open>function processCSV(csvData)\<close>, run on a console with nothing written yet. The
  rows are the pieces of the trimmed input between \<open>"\r\n"\<close>; \<open>split\<close> gives at least one
  row, and the loop only reads \<open>rows[row]\<close> for \<open>row < rows.length\<close>.
\<close>

definition newRun :: run where
  "newRun = \<lparr>evaluator = \<lparr>visitedCells = {}, consoleError = []\<rparr>, consoleLog = [], calls = []\<rparr>"

definition processCSV :: "string \<Rightarrow> (exn + unit) \<times> run" where
  "processCSV csvData =
     (let rows = split [CHR 0x0D, CHR 0x0A] (trim csvData);
          numRows = length rows;
          numCols = length (split '','' (hd rows))
      in case initializeCells (int numRows) (int numCols) of
           Inl e \<Rightarrow> (Inl e, newRun)
         | Inr initialCells \<Rightarrow>
             (case populateCells rows numRows numCols initialCells of
                Inl e \<Rightarrow> (Inl e, newRun)
              | Inr populatedCells \<Rightarrow>
                  (case evaluateRows rows [0..<numRows] populatedCells numRows numCols [] newRun of
                     (Inl e, r) \<Rightarrow> (Inl e, r)
                   | (Inr result, r) \<Rightarrow>
                       (Inr (), r\<lparr>consoleLog := consoleLog r @ [join [CHR 0x0A] result]\<rparr>))))"

text \<open>
  Reading the record of calls: the cell text a call was given, the state it started
  from, what it returned and the state it left. The calls are threaded from a state
  \<open>s\<close> when the first starts from \<open>s\<close>, each is a call of \<open>evaluateCell\<close> on the grid, and
  each next one starts from the state the one before it left.
\<close>

type_synonym call = "cell \<times> state \<times> (exn + outcome) \<times> state"




definition exitState :: "call \<Rightarrow> state" where
  "exitState c = snd (snd (snd c))"


fun finalState :: "state \<Rightarrow> call list \<Rightarrow> state" where
  "finalState s [] = s"
| "finalState s (c # cs) = finalState (exitState c) cs"

section \<open>The reference graph of a grid\<close>

text \<open>
  The cells a text refers to: for each of its tokens that matches the reference pattern
  and resolves inside \<open>[0, numRows) \<times> [0, numCols)\<close>, the position it resolves to. A cell
  \<open>p\<close> references \<open>q\<close> when the text stored at \<open>p\<close> refers to \<open>q\<close>.
\<close>

definition tokenTarget :: "int \<Rightarrow> int \<Rightarrow> string \<Rightarrow> (int \<times> int) list" where
  "tokenTarget numRows numCols token =
     (if cellRefRegex_test token then
        (case getCellIndices token of
           (Num r, Num c) \<Rightarrow> if inBounds (Num r) (Num c) numRows numCols then [(r, c)] else []
         | _ \<Rightarrow> [])
      else [])"

definition refTargets :: "int \<Rightarrow> int \<Rightarrow> string \<Rightarrow> (int \<times> int) list" where
  "refTargets numRows numCols s = concat (map (tokenTarget numRows numCols) (split '' '' s))"

definition cellText :: "grid \<Rightarrow> int \<times> int \<Rightarrow> string option" where
  "cellText initialCells p =
     (case lookupCell initialCells (Num (fst p)) (Num (snd p)) of
        Inr (Some s) \<Rightarrow> Some s
      | _ \<Rightarrow> None)"

definition references :: "grid \<Rightarrow> int \<Rightarrow> int \<Rightarrow> ((int \<times> int) \<times> (int \<times> int)) set" where
  "references initialCells numRows numCols =
     {(p, q). \<exists>s. cellText initialCells p = Some s \<and> q \<in> set (refTargets numRows numCols s)}"

text \<open>
  A token that lets the loop go on: it is not blank, and it is a reference that resolves
  inside the bounds or a token that \<open>isNaN\<close> accepts as a number.
\<close>

definition tokenOk :: "int \<Rightarrow> int \<Rightarrow> string \<Rightarrow> bool" where
  "tokenOk numRows numCols token =
     (trim token \<noteq> [] \<and>
      (if cellRefRegex_test token
       then inBounds (fst (getCellIndices token)) (snd (getCellIndices token)) numRows numCols
       else \<not> jsIsNaN token))"

text \<open>
  The reading of the resolver in the specification, for comparison with
  \<open>getCellIndices\<close>: the row is the decimal value of the digits that follow the letters,
  minus one, and the column is the offset of the first character from \<open>A\<close>.
\<close>

definition claimedIndices :: "string \<Rightarrow> jsnum \<times> jsnum" where
  "claimedIndices token =
     (Num (digitsValue 10 (dropWhile isUpper token) - 1), Num (of_char (hd token) - 65))"

text \<open>
  The integer literals of the specification's grammar: an optional sign and decimal
  digits.
\<close>

definition isIntegerLiteral :: "string \<Rightarrow> bool" where
  "isIntegerLiteral s = isDigits (snd (stripSign s))"

section \<open>Basic facts about the evaluator\<close>

lemma visited_restored:
  "evaluateCell cell g st nr nc = (Inr (Val v), st') \<Longrightarrow> visitedCells st' = visitedCells st"
  "forTokens ts a g st nr nc = (Inr (Val v), st') \<Longrightarrow> visitedCells st' = visitedCells st"
  using visited_restored_partial evaluateCell_forTokens_dom_all by blast+

lemma dropWhile_rev_dropWhile_Nil:
  "dropWhile P (rev (dropWhile P s)) = [] \<longleftrightarrow> dropWhile P s = []"
proof
  assume a: "dropWhile P (rev (dropWhile P s)) = []"
  show "dropWhile P s = []"
  proof (rule ccontr)
    assume ne: "dropWhile P s \<noteq> []"
    then have "\<not> P (hd (dropWhile P s))" by (rule hd_dropWhile)
    moreover have "hd (dropWhile P s) \<in> set (rev (dropWhile P s))" using ne by simp
    ultimately show False using a by (auto simp: dropWhile_eq_Nil_conv)
  qed
next
  assume "dropWhile P s = []"
  then show "dropWhile P (rev (dropWhile P s)) = []" by (simp del: dropWhile_eq_Nil_conv)
qed

lemma trim_Nil_iff: "trim s = [] \<longleftrightarrow> (\<forall>c\<in>set s. isWhiteSpace c)"
proof -
  have "trim s = [] \<longleftrightarrow> dropWhile isWhiteSpace (rev (dropWhile isWhiteSpace s)) = []"
    unfolding trim_def by (simp only: rev_is_Nil_conv)
  also have "\<dots> \<longleftrightarrow> dropWhile isWhiteSpace s = []"
    by (rule dropWhile_rev_dropWhile_Nil)
  also have "\<dots> \<longleftrightarrow> (\<forall>c\<in>set s. isWhiteSpace c)"
    by (rule dropWhile_eq_Nil_conv)
  finally show ?thesis .
qed

text \<open>The first piece of \<open>s.split(' ')\<close> is \<open>s\<close> up to its first space.\<close>

lemma splitFrom_space_hd:
  "\<exists>rest. splitFrom '' '' acc s = (rev acc @ takeWhile (\<lambda>c. c \<noteq> CHR '' '') s) # rest"
proof (induction s arbitrary: acc)
  case Nil
  show ?case by simp
next
  case (Cons c cs)
  show ?case
  proof (cases "c = CHR '' ''")
    case True
    then show ?thesis by simp
  next
    case False
    then show ?thesis using Cons.IH[of "c # acc"] by simp
  qed
qed

lemma isReference_hd: "isReference x \<Longrightarrow> x \<noteq> [] \<and> isUpper (hd x)"
  by (cases x) (auto simp: isReference_def Let_def split: if_splits)

lemma isUpper_not_white: "isUpper c \<Longrightarrow> \<not> isWhiteSpace c"
  by (auto simp: isUpper_def isWhiteSpace_def)

lemma reference_hd: "cellRefRegex_test token \<Longrightarrow> token \<noteq> [] \<and> isUpper (hd token)"
proof -
  assume a: "cellRefRegex_test token"
  obtain rest where r: "split '' '' token = takeWhile (\<lambda>c. c \<noteq> CHR '' '') token # rest"
    using splitFrom_space_hd[of "[]" token] by (auto simp: split_def)
  with a have "isReference (takeWhile (\<lambda>c. c \<noteq> CHR '' '') token)"
    by (simp add: cellRefRegex_test_def)
  then have h: "takeWhile (\<lambda>c. c \<noteq> CHR '' '') token \<noteq> []"
    "isUpper (hd (takeWhile (\<lambda>c. c \<noteq> CHR '' '') token))"
    using isReference_hd by blast+
  then show ?thesis by (cases token) (auto split: if_splits)
qed

lemma reference_not_blank: "cellRefRegex_test token \<Longrightarrow> trim token \<noteq> []"
proof -
  assume "cellRefRegex_test token"
  then have "token \<noteq> []" "\<not> isWhiteSpace (hd token)"
    using reference_hd isUpper_not_white by blast+
  then show ?thesis by (cases token) (auto simp: trim_Nil_iff)
qed

lemma jsIsNaN_not_blank: "jsIsNaN token \<Longrightarrow> trim token \<noteq> []"
  by (auto simp: jsIsNaN_def isNumericLiteral_def)

text \<open>One equation for each way through the body of the loop.\<close>

lemma forTokens_empty_token:
  "trim token = [] \<Longrightarrow>
   forTokens (token # tokens) acc g st nr nc =
     (Inr ERR, logError ''Empty token found. Defaulting to #ERR'' st)"
  by (simp add: forTokens.simps(2))

lemma forTokens_literal:
  "trim token \<noteq> [] \<Longrightarrow> \<not> cellRefRegex_test token \<Longrightarrow> \<not> jsIsNaN token \<Longrightarrow>
   forTokens (token # tokens) acc g st nr nc =
     forTokens tokens (jsAdd acc (parseInt token)) g st nr nc"
  by (simp add: forTokens.simps(2))

lemma forTokens_invalid:
  "\<not> cellRefRegex_test token \<Longrightarrow> jsIsNaN token \<Longrightarrow>
   forTokens (token # tokens) acc g st nr nc = (Inr ERR, logError (msgInvalid token) st)"
  by (simp add: forTokens.simps(2) jsIsNaN_not_blank)

lemma forTokens_out_of_bounds:
  "cellRefRegex_test token \<Longrightarrow> getCellIndices token = (row, col) \<Longrightarrow>
   \<not> inBounds row col nr nc \<Longrightarrow>
   forTokens (token # tokens) acc g st nr nc = (Inr ERR, logError (msgOutOfBounds row col) st)"
  by (simp add: forTokens.simps(2) reference_not_blank)

lemma forTokens_type_error:
  "cellRefRegex_test token \<Longrightarrow> getCellIndices token = (row, col) \<Longrightarrow>
   inBounds row col nr nc \<Longrightarrow> lookupCell g row col = Inl e \<Longrightarrow>
   forTokens (token # tokens) acc g st nr nc = (Inl e, st)"
  by (simp add: forTokens.simps(2) reference_not_blank)

lemma forTokens_circular:
  "cellRefRegex_test token \<Longrightarrow> getCellIndices token = (row, col) \<Longrightarrow>
   inBounds row col nr nc \<Longrightarrow> lookupCell g row col = Inr referencedCell \<Longrightarrow>
   referencedCell \<in> visitedCells st \<Longrightarrow>
   forTokens (token # tokens) acc g st nr nc = (Inr ERR, logError (msgCircular token) st)"
  by (simp add: forTokens.simps(2) reference_not_blank)

lemma forTokens_reference:
  "cellRefRegex_test token \<Longrightarrow> getCellIndices token = (row, col) \<Longrightarrow>
   inBounds row col nr nc \<Longrightarrow> lookupCell g row col = Inr referencedCell \<Longrightarrow>
   referencedCell \<notin> visitedCells st \<Longrightarrow>
   forTokens (token # tokens) acc g st nr nc =
     (case evaluateCell referencedCell g
             (st\<lparr>visitedCells := insert referencedCell (visitedCells st)\<rparr>) nr nc of
        (Inl e, st') \<Rightarrow> (Inl e, st')
      | (Inr ERR, st') \<Rightarrow> (Inr ERR, st')
      | (Inr (Val refValue), st') \<Rightarrow>
          forTokens tokens (jsAdd acc refValue) g
            (st'\<lparr>visitedCells := visitedCells st' - {referencedCell}\<rparr>) nr nc)"
  by (simp add: forTokens.simps(2) reference_not_blank)

text \<open>A run of the loop that returns a number has met only tokens that let it go on.\<close>

lemma forTokens_Val_tokens_ok:
  "forTokens ts a g st nr nc = (Inr (Val v), st') \<Longrightarrow> t \<in> set ts \<Longrightarrow> tokenOk nr nc t"
proof (induction ts arbitrary: a st)
  case Nil
  then show ?case by simp
next
  case (Cons token tokens)
  have ok: "tokenOk nr nc token"
    using Cons.prems(1)
    by (auto simp: tokenOk_def forTokens.simps(2) split: if_splits prod.splits)
  show ?case
  proof (cases "t = token")
    case True
    with ok show ?thesis by simp
  next
    case False
    with Cons.prems have tin: "t \<in> set tokens" by simp
    show ?thesis
    proof (cases "cellRefRegex_test token")
      case False
      with ok Cons.prems(1)
      have "forTokens tokens (jsAdd a (parseInt token)) g st nr nc = (Inr (Val v), st')"
        by (simp add: tokenOk_def forTokens_literal)
      from Cons.IH[OF this tin] show ?thesis .
    next
      case True
      then obtain st2 a2 where "forTokens tokens a2 g st2 nr nc = (Inr (Val v), st')"
        using Cons.prems(1)
        by (auto simp: forTokens.simps(2) split: if_splits prod.splits sum.splits outcome.splits)
      from Cons.IH[OF this tin] show ?thesis .
    qed
  qed
qed

text \<open>
  With at least \<open>numRows\<close> rows in the grid no read \<open>initialCells[row][col]\<close> throws.
\<close>

lemma inBounds_lookup:
  "inBounds row col nr nc \<Longrightarrow> nr \<le> int (length g) \<Longrightarrow> \<exists>b. lookupCell g row col = Inr b"
  by (cases row; cases col) (auto simp: inBounds_def lookupCell_def)

lemma no_throw:
  "nr \<le> int (length g) \<Longrightarrow> \<exists>out. fst (evaluateCell cell g st nr nc) = Inr out"
  "nr \<le> int (length g) \<Longrightarrow> \<exists>out. fst (forTokens ts a g st nr nc) = Inr out"
proof (induction cell g st nr nc and ts a g st nr nc rule: evaluateCell_forTokens.induct)
  case (1 cell initialCells st numRows numCols)
  then show ?case by (cases cell) (auto simp: evaluateCell.simps)
next
  case (2 acc initialCells st numRows numCols)
  then show ?case by simp
next
  case (3 token tokens acc initialCells st numRows numCols)
  show ?case
  proof (cases "trim token = []")
    case True
    then show ?thesis by (simp add: forTokens_empty_token)
  next
    case nonempty: False
    show ?thesis
    proof (cases "cellRefRegex_test token")
      case False
      then show ?thesis
        using "3.IH"(3)[OF nonempty False] "3.prems" nonempty
        by (cases "jsIsNaN token") (simp_all add: forTokens_invalid forTokens_literal)
    next
      case True
      obtain x y where xy: "getCellIndices token = (x, y)" by (cases "getCellIndices token")
      show ?thesis
      proof (cases "inBounds x y numRows numCols")
        case False
        then show ?thesis using True xy by (simp add: forTokens_out_of_bounds)
      next
        case inb: True
        then obtain b where b: "lookupCell initialCells x y = Inr b"
          using inBounds_lookup "3.prems" by blast
        show ?thesis
        proof (cases "b \<in> visitedCells st")
          case True
          then show ?thesis using \<open>cellRefRegex_test token\<close> xy inb b by (simp add: forTokens_circular)
        next
          case nb: False
          let ?st1 = "st\<lparr>visitedCells := insert b (visitedCells st)\<rparr>"
          obtain r st2 where rec: "evaluateCell b initialCells ?st1 numRows numCols = (r, st2)"
            by (cases "evaluateCell b initialCells ?st1 numRows numCols")
          obtain out where r: "r = Inr out"
            using "3.IH"(1)[OF nonempty True xy[symmetric] inb b nb "3.prems"] rec by auto
          show ?thesis
          proof -
            note Inr = r
            show ?thesis
            proof (cases out)
              case ERR
              then show ?thesis using True xy inb b nb rec Inr by (simp add: forTokens_reference)
            next
              case (Val w)
              then show ?thesis
                using "3.IH"(2)[OF nonempty True xy[symmetric] inb b nb rec[symmetric] Inr Val "3.prems"]
                  True xy inb b nb rec Inr by (simp add: forTokens_reference)
            qed
          qed
        qed
      qed
    qed
  qed
qed

text \<open>
  The loop over \<open>xs @ ys\<close> is the loop over \<open>xs\<close> followed, when that returns a number,
  by the loop over \<open>ys\<close>.
\<close>

lemma forTokens_append:
  "forTokens (xs @ ys) a g st nr nc =
     (case forTokens xs a g st nr nc of
        (Inr (Val v), st') \<Rightarrow> forTokens ys v g st' nr nc
      | other \<Rightarrow> other)"
proof (induction xs arbitrary: a st)
  case Nil
  show ?case by simp
next
  case (Cons token tokens)
  show ?case
  proof (cases "trim token = []")
    case True
    then show ?thesis by (simp add: forTokens_empty_token)
  next
    case nonempty: False
    show ?thesis
    proof (cases "cellRefRegex_test token")
      case False
      then show ?thesis
        using nonempty Cons.IH
        by (cases "jsIsNaN token") (simp_all add: forTokens_invalid forTokens_literal)
    next
      case True
      obtain x y where xy: "getCellIndices token = (x, y)" by (cases "getCellIndices token")
      show ?thesis
      proof (cases "inBounds x y nr nc")
        case False
        then show ?thesis using True xy by (simp add: forTokens_out_of_bounds)
      next
        case inb: True
        show ?thesis
        proof (cases "lookupCell g x y")
          case (Inl e)
          then show ?thesis using True xy inb by (simp add: forTokens_type_error)
        next
          case (Inr b)
          show ?thesis
          proof (cases "b \<in> visitedCells st")
            case True
            then show ?thesis using \<open>cellRefRegex_test token\<close> xy inb Inr by (simp add: forTokens_circular)
          next
            case nb: False
            let ?st1 = "st\<lparr>visitedCells := insert b (visitedCells st)\<rparr>"
            obtain r st2 where rec: "evaluateCell b g ?st1 nr nc = (r, st2)"
              by (cases "evaluateCell b g ?st1 nr nc")
            show ?thesis
              using True xy inb Inr nb rec Cons.IH
              by (simp add: forTokens_reference split: sum.splits outcome.splits)
          qed
        qed
      qed
    qed
  qed
qed

section \<open>The resolver on reference tokens\<close>

lemma isDigit_isDigitOf: "isDigit c \<Longrightarrow> isDigitOf 10 c"
  by (auto simp: isDigit_def isDigitOf_def digitValue_def Let_def)

lemma isDigit_not_white: "isDigit c \<Longrightarrow> \<not> isWhiteSpace c"
  by (auto simp: isDigit_def isWhiteSpace_def)

lemma isDigit_not_sign:
  "isDigit c \<Longrightarrow> c \<noteq> CHR ''-'' \<and> c \<noteq> CHR ''+'' \<and> c \<noteq> CHR ''x'' \<and> c \<noteq> CHR ''X''"
  by (auto simp: isDigit_def)

lemma isDigit_not_upper: "isDigit c \<Longrightarrow> \<not> isUpper c"
  by (auto simp: isDigit_def isUpper_def)

lemma parseInt_digits:
  assumes "ds \<noteq> []" "list_all isDigit ds"
  shows "parseInt ds = Num (digitsValue 10 ds)"
proof -
  obtain d rest where ds: "ds = d # rest" using assms(1) by (cases ds) auto
  have d: "isDigit d" and rest: "list_all isDigit rest" using assms(2) ds by auto
  have t: "trimStart ds = ds" using d isDigit_not_white by (simp add: trimStart_def ds)
  have s: "stripSign ds = (1, ds)" using d isDigit_not_sign by (simp add: stripSign_def ds)
  have x: "take 2 ds \<noteq> ''0x''" "take 2 ds \<noteq> ''0X''"
    using rest isDigit_not_sign by (cases rest; auto simp: ds)+
  have w: "takeWhile (isDigitOf 10) ds = ds"
    using assms(2) isDigit_isDigitOf by (auto simp: takeWhile_eq_all_conv list_all_iff)
  show ?thesis using assms(1) by (simp add: parseInt_def t s x w)
qed

lemma splitFrom_no_space:
  "CHR '' '' \<notin> set s \<Longrightarrow> splitFrom '' '' acc s = [rev acc @ s]"
  by (induction s arbitrary: acc) auto

lemma split_no_space: "CHR '' '' \<notin> set s \<Longrightarrow> split '' '' s = [s]"
  by (simp add: split_def splitFrom_no_space)

text \<open>
  Claim C4, as the code has it. For every token made of one capital letter followed by
  one or two digits, the token matches the reference pattern and \<open>getCellIndices\<close> returns
  the pair (row, col) where the row is the digits read as a decimal number minus one and
  the column is the letter's offset from \<open>A\<close>, which is what the specification's reading
  gives; so \<open>A12\<close> yields (11, 0) and \<open>D5\<close> yields (4, 3). The pattern also accepts
  several letters, and there \<open>getCellIndices\<close> reads the row from the second character
  on, which is a letter.
\<close>

theorem getCellIndices_single_letter:
  "isUpper L \<Longrightarrow> ds \<noteq> [] \<Longrightarrow> length ds \<le> 2 \<Longrightarrow> list_all isDigit ds \<Longrightarrow>
   cellRefRegex_test (L # ds) \<and>
   getCellIndices (L # ds) = (Num (digitsValue 10 ds - 1), Num (of_char L - 65)) \<and>
   getCellIndices (L # ds) = claimedIndices (L # ds)"
proof -
  assume L: "isUpper L" and ne: "ds \<noteq> []" and len: "length ds \<le> 2" and dig: "list_all isDigit ds"
  have nospace: "CHR '' '' \<notin> set (L # ds)"
    using L dig by (auto simp: isUpper_def isDigit_def list_all_iff)
  have tw: "takeWhile isUpper ds = []" "dropWhile isUpper ds = ds"
    using ne dig isDigit_not_upper by (cases ds; auto)+
  have l12: "length ds = 1 \<or> length ds = 2"
    using ne len by (cases ds) (auto simp: le_Suc_eq)
  have "isReference (L # ds)"
    using L l12 dig tw by (simp add: isReference_def Let_def)
  then have "cellRefRegex_test (L # ds)"
    using split_no_space[OF nospace] by (simp add: cellRefRegex_test_def)
  moreover have "getCellIndices (L # ds) = (Num (digitsValue 10 ds - 1), Num (of_char L - 65))"
    by (simp add: getCellIndices_def parseInt_digits[OF ne dig])
  moreover have "claimedIndices (L # ds) = (Num (digitsValue 10 ds - 1), Num (of_char L - 65))"
    using L tw by (simp add: claimedIndices_def)
  ultimately show ?thesis by simp
qed

theorem getCellIndices_single_letter_witness:
  "getCellIndices ''A12'' = (Num 11, Num 0) \<and> getCellIndices ''D5'' = (Num 4, Num 3)"
  using getCellIndices_single_letter [of "CHR ''A''" "''12''"]
        getCellIndices_single_letter [of "CHR ''D''" "''5''"]
  by (simp add: isUpper_def isDigit_def digitsValue_def digitValue_def)

text \<open>
  Claim C4 as stated fails on a token with two letters: \<open>AB12\<close> matches the pattern, the
  digits that follow its letters are 12, so the specification's reading gives (11, 0),
  but \<open>getCellIndices\<close> parses \<open>B12\<close> and returns \<open>NaN\<close> for the row.
\<close>

theorem getCellIndices_two_letters_counterexample:
  "cellRefRegex_test ''AB12'' \<and> claimedIndices ''AB12'' = (Num 11, Num 0) \<and>
   getCellIndices ''AB12'' = (NaN, Num 0)"
  by code_simp

section \<open>What the evaluator returns\<close>

text \<open>
  Claim C3 says that \<open>evaluateCell\<close> returns an integer or the marker \<open>#ERR\<close> and never
  \<open>NaN\<close>. On the cell text \<open>.5\<close> the code returns \<open>NaN\<close>, whatever the grid, the visited
  set and the dimensions: \<open>isNaN(".5")\<close> is false, so the token is taken for a number,
  and \<open>parseInt(".5")\<close> is \<open>NaN\<close>, which is added to the sum.
\<close>

theorem evaluateCell_fraction_returns_NaN:
  "evaluateCell (Some ''.5'') initialCells st numRows numCols = (Inr (Val NaN), st)"
  by (simp add: evaluateCell.simps split_def forTokens.simps(2) trim_def isWhiteSpace_def
      cellRefRegex_test_def isReference_def isUpper_def jsIsNaN_def isNumericLiteral_def
      isNonDecimalLiteral_def isUnsignedDecimalLiteral_def stripSign_def isDigit_def
      isExponentPart_def isDigits_def parseInt_def trimStart_def isDigitOf_def digitValue_def
      Let_def)

section \<open>The visited set after a call\<close>

text \<open>
  Claim C9. For every call of \<open>evaluateCell\<close> that returns a number, the visited set after
  the call equals the visited set before the call: what was added for a reference has
  been removed again when the recursion into it returned a number.
\<close>

theorem evaluateCell_number_restores_visited:
  "evaluateCell cell initialCells st numRows numCols = (Inr (Val v), st') \<Longrightarrow>
   visitedCells st' = visitedCells st"
  by (rule visited_restored(1))

theorem evaluateCell_number_restores_visited_witness:
  "\<exists>st'. evaluateCell (Some ''B1 5'') [[''1'', ''A1 1'']]
            \<lparr>visitedCells = {Some ''q''}, consoleError = []\<rparr> 1 2 = (Inr (Val (Num 7)), st')
         \<and> visitedCells st' = {Some ''q''}"
proof -
  have h: "evaluateCell (Some ''B1 5'') [[''1'', ''A1 1'']]
             \<lparr>visitedCells = {Some ''q''}, consoleError = []\<rparr> 1 2
           = (Inr (Val (Num 7)), \<lparr>visitedCells = {Some ''q''}, consoleError = []\<rparr>)"
    by code_simp
  from evaluateCell_number_restores_visited [OF h] h show ?thesis by simp
qed

section \<open>Tokens that end the evaluation of a cell\<close>

lemma evaluateCell_not_Val:
  assumes "t \<in> set (split '' '' s)" "\<not> tokenOk nr nc t"
  shows "fst (evaluateCell (Some s) g st nr nc) \<noteq> Inr (Val v)"
proof
  assume a: "fst (evaluateCell (Some s) g st nr nc) = Inr (Val v)"
  then obtain st' where "forTokens (split '' '' s) (Num 0) g st nr nc = (Inr (Val v), st')"
    by (cases "forTokens (split '' '' s) (Num 0) g st nr nc") (simp add: evaluateCell.simps)
  from forTokens_Val_tokens_ok[OF this assms(1)] assms(2) show False by simp
qed

lemma evaluateCell_ERR:
  assumes "t \<in> set (split '' '' s)" "\<not> tokenOk nr nc t" "nr \<le> int (length g)"
  shows "fst (evaluateCell (Some s) g st nr nc) = Inr ERR"
proof -
  obtain out where o: "fst (evaluateCell (Some s) g st nr nc) = Inr out"
    using no_throw(1)[OF assms(3)] by blast
  moreover have "out \<noteq> Val v" for v
    using evaluateCell_not_Val[OF assms(1,2)] o by auto
  ultimately show ?thesis by (cases out) auto
qed

text \<open>
  Claim C6. A reference token that resolves outside \<open>[0, numRows) \<times> [0, numCols)\<close> makes
  \<open>evaluateCell\<close> return \<open>#ERR\<close> at once. At the token the loop returns \<open>#ERR\<close> and the
  state only gains the out-of-bounds diagnostic: the result mentions neither the grid
  nor the tokens that follow, so no cell is read or recursed into and no further token
  is processed. For a cell whose tokens are \<open>pre @ token # rest\<close> the result is what the
  tokens before it gave if they already ended the evaluation, and \<open>#ERR\<close> with the
  diagnostic otherwise, whatever \<open>rest\<close> is. So a cell text that contains such a token
  never evaluates to a number, and evaluates to \<open>#ERR\<close> when the grid has its \<open>numRows\<close>
  rows.
\<close>

theorem out_of_bounds_reference_is_error:
  assumes "cellRefRegex_test token"
    and "getCellIndices token = (row, col)"
    and "\<not> inBounds row col numRows numCols"
  shows "forTokens (token # rest) acc initialCells st numRows numCols
           = (Inr ERR, logError (msgOutOfBounds row col) st)
       \<and> forTokens (pre @ token # rest) acc initialCells st numRows numCols
           = (case forTokens pre acc initialCells st numRows numCols of
                (Inr (Val v), st') \<Rightarrow> (Inr ERR, logError (msgOutOfBounds row col) st')
              | other \<Rightarrow> other)
       \<and> (token \<in> set (split '' '' content) \<longrightarrow>
            (\<forall>v. fst (evaluateCell (Some content) initialCells st numRows numCols) \<noteq> Inr (Val v)) \<and>
            (numRows \<le> int (length initialCells) \<longrightarrow>
               fst (evaluateCell (Some content) initialCells st numRows numCols) = Inr ERR))"
proof -
  have here: "forTokens (token # rest) a initialCells s numRows numCols
           = (Inr ERR, logError (msgOutOfBounds row col) s)" for a s
    using assms by (rule forTokens_out_of_bounds)
  have bad: "\<not> tokenOk numRows numCols token"
    using assms by (simp add: tokenOk_def)
  have "forTokens (pre @ token # rest) acc initialCells st numRows numCols
           = (case forTokens pre acc initialCells st numRows numCols of
                (Inr (Val v), st') \<Rightarrow> (Inr ERR, logError (msgOutOfBounds row col) st')
              | other \<Rightarrow> other)"
    by (simp add: forTokens_append here split: prod.splits sum.splits outcome.splits)
  with here bad show ?thesis
    using evaluateCell_not_Val evaluateCell_ERR by blast
qed


theorem out_of_bounds_reference_is_error_witness:
  "cellRefRegex_test ''A4'' \<and> getCellIndices ''A4'' = (Num 3, Num 0) \<and>
   \<not> inBounds (Num 3) (Num 0) 3 3 \<and> ''A4'' \<in> set (split '' '' ''A1 A4 7'') \<and>
   fst (evaluateCell (Some ''A1 A4 7'') [[''1''], [''2''], [''3'']]
          \<lparr>visitedCells = {}, consoleError = []\<rparr> 3 3) = Inr ERR"
proof -
  have h1: "cellRefRegex_test ''A4''" by code_simp
  have h2: "getCellIndices ''A4'' = (Num 3, Num 0)" by code_simp
  have h3: "\<not> inBounds (Num 3) (Num 0) 3 3" by (simp add: inBounds_def)
  have h4: "''A4'' \<in> set (split '' '' ''A1 A4 7'')" by code_simp
  from out_of_bounds_reference_is_error [OF h1 h2 h3, where content = "''A1 A4 7''"
      and initialCells = "[[''1''], [''2''], [''3'']]"
      and st = "\<lparr>visitedCells = {}, consoleError = []\<rparr>"] h1 h2 h3 h4
  show ?thesis by simp
qed

lemma trim_no_white_ends:
  assumes "s \<noteq> []" "\<not> isWhiteSpace (hd s)" "\<not> isWhiteSpace (last s)"
  shows "trim s = s"
proof -
  have 1: "dropWhile isWhiteSpace s = s" using assms(1,2) by (cases s) auto
  have "rev s \<noteq> []" "\<not> isWhiteSpace (hd (rev s))"
    using assms(1,3) by (simp_all add: hd_rev)
  then have 2: "dropWhile isWhiteSpace (rev s) = rev s" by (cases "rev s") auto
  show ?thesis by (simp add: trim_def 1 2)
qed

lemma sign_not_white: "c = CHR ''-'' \<or> c = CHR ''+'' \<Longrightarrow> \<not> isWhiteSpace c"
  by (auto simp: isWhiteSpace_def)

lemma digits_unsigned_decimal: "isDigits ds \<Longrightarrow> isUnsignedDecimalLiteral ds"
proof -
  assume d: "isDigits ds"
  then have tw: "takeWhile isDigit ds = ds" and dw: "dropWhile isDigit ds = []"
    and ne: "ds \<noteq> []"
    by (auto simp: isDigits_def list_all_iff takeWhile_eq_all_conv)
  show ?thesis by (simp add: isUnsignedDecimalLiteral_def Let_def tw dw ne)
qed

lemma integer_literal_is_numeric:
  assumes "isIntegerLiteral s"
  shows "trim s \<noteq> [] \<and> \<not> jsIsNaN s"
proof -
  let ?ds = "snd (stripSign s)"
  have d: "isDigits ?ds" using assms by (simp add: isIntegerLiteral_def)
  then have ne: "?ds \<noteq> []" and dig: "\<forall>c\<in>set ?ds. isDigit c"
    by (auto simp: isDigits_def list_all_iff)
  have s_ne: "s \<noteq> []" using ne by (cases s) (auto simp: stripSign_def)
  have form: "s = ?ds \<or> (\<exists>c. (c = CHR ''-'' \<or> c = CHR ''+'') \<and> s = c # ?ds)"
    using s_ne by (cases s) (auto simp: stripSign_def)
  have nw: "\<forall>c\<in>set s. \<not> isWhiteSpace c"
    using form dig isDigit_not_white sign_not_white by (metis set_ConsD)
  then have "\<not> isWhiteSpace (hd s)" "\<not> isWhiteSpace (last s)"
    using s_ne by (simp_all)
  then have t: "trim s = s" using s_ne trim_no_white_ends by blast
  have "isNumericLiteral s"
    using digits_unsigned_decimal[OF d] by (simp add: isNumericLiteral_def)
  with t s_ne show ?thesis by (simp add: jsIsNaN_def)
qed

lemma blank_or_NaN_not_ok:
  "\<not> cellRefRegex_test token \<Longrightarrow> trim token = [] \<or> jsIsNaN token \<Longrightarrow>
   \<not> tokenOk numRows numCols token"
  by (auto simp: tokenOk_def)

lemma forTokens_rejected:
  assumes "\<not> cellRefRegex_test token" and "trim token = [] \<or> jsIsNaN token"
  shows "forTokens (token # rest) acc g st nr nc
           = (Inr ERR, logError (if trim token = [] then ''Empty token found. Defaulting to #ERR''
                                 else msgInvalid token) st)"
  using assms by (auto simp: forTokens_empty_token forTokens_invalid)

text \<open>
  Claim C7, as the code has it. A token that does not match the reference pattern and
  that is blank or that \<open>isNaN\<close> rejects (such as \<open>###a32432\<close>) makes \<open>evaluateCell\<close> return
  \<open>#ERR\<close>, with the empty-token diagnostic for a blank token and the invalid-format
  diagnostic otherwise, and no further token of the cell is processed: the result at the
  token does not mention the tokens that follow, and a cell text that contains such a
  token never evaluates to a number. Such a token is never an integer literal.
\<close>

theorem invalid_token_is_error:
  assumes "\<not> cellRefRegex_test token"
    and "trim token = [] \<or> jsIsNaN token"
  shows "forTokens (token # rest) acc initialCells st numRows numCols
           = (Inr ERR, logError (if trim token = [] then ''Empty token found. Defaulting to #ERR''
                                 else msgInvalid token) st)
       \<and> forTokens (pre @ token # rest) acc initialCells st numRows numCols
           = (case forTokens pre acc initialCells st numRows numCols of
                (Inr (Val v), st') \<Rightarrow>
                  (Inr ERR, logError (if trim token = [] then ''Empty token found. Defaulting to #ERR''
                                      else msgInvalid token) st')
              | other \<Rightarrow> other)
       \<and> (token \<in> set (split '' '' content) \<longrightarrow>
            (\<forall>v. fst (evaluateCell (Some content) initialCells st numRows numCols) \<noteq> Inr (Val v)) \<and>
            (numRows \<le> int (length initialCells) \<longrightarrow>
               fst (evaluateCell (Some content) initialCells st numRows numCols) = Inr ERR))
       \<and> \<not> isIntegerLiteral token"
proof -
  have here: "forTokens (token # rest) a initialCells s numRows numCols
           = (Inr ERR, logError (if trim token = [] then ''Empty token found. Defaulting to #ERR''
                                 else msgInvalid token) s)" for a s
    using assms by (rule forTokens_rejected)
  have bad: "\<not> tokenOk numRows numCols token"
    using assms by (rule blank_or_NaN_not_ok)
  have lit: "\<not> isIntegerLiteral token"
    using assms(2) integer_literal_is_numeric by blast
  have "forTokens (pre @ token # rest) acc initialCells st numRows numCols
           = (case forTokens pre acc initialCells st numRows numCols of
                (Inr (Val v), st') \<Rightarrow>
                  (Inr ERR, logError (if trim token = [] then ''Empty token found. Defaulting to #ERR''
                                      else msgInvalid token) st')
              | other \<Rightarrow> other)"
    by (simp only: forTokens_append here split: prod.splits sum.splits outcome.splits)
  with here bad lit show ?thesis
    using evaluateCell_not_Val evaluateCell_ERR by blast
qed

theorem invalid_token_is_error_witness:
  "\<not> cellRefRegex_test ''###a32432'' \<and> jsIsNaN ''###a32432'' \<and>
   ''###a32432'' \<in> set (split '' '' ''4 ###a32432 A1'') \<and>
   fst (evaluateCell (Some ''4 ###a32432 A1'') [[''1'']]
          \<lparr>visitedCells = {}, consoleError = []\<rparr> 1 1) = Inr ERR \<and>
   \<not> cellRefRegex_test [] \<and> trim [] = [] \<and> [] \<in> set (split '' '' ''4  5'') \<and>
   fst (evaluateCell (Some ''4  5'') [[''1'']]
          \<lparr>visitedCells = {}, consoleError = []\<rparr> 1 1) = Inr ERR"
proof -
  have h1: "\<not> cellRefRegex_test ''###a32432''" by code_simp
  have h2: "jsIsNaN ''###a32432''" by code_simp
  have h4: "''###a32432'' \<in> set (split '' '' ''4 ###a32432 A1'')" by code_simp
  have b1: "\<not> cellRefRegex_test []" by code_simp
  have b2: "trim [] = []" by code_simp
  have b4: "[] \<in> set (split '' '' ''4  5'')" by code_simp
  from invalid_token_is_error [OF h1 disjI2 [OF h2], where content = "''4 ###a32432 A1''"
      and initialCells = "[[''1'']]"
      and st = "\<lparr>visitedCells = {}, consoleError = []\<rparr>" and numRows = 1] h4
  have e1: "fst (evaluateCell (Some ''4 ###a32432 A1'') [[''1'']]
          \<lparr>visitedCells = {}, consoleError = []\<rparr> 1 1) = Inr ERR" by simp
  from invalid_token_is_error [OF b1 disjI1 [OF b2], where content = "''4  5''"
      and initialCells = "[[''1'']]"
      and st = "\<lparr>visitedCells = {}, consoleError = []\<rparr>" and numRows = 1] b4
  have e2: "fst (evaluateCell (Some ''4  5'') [[''1'']]
          \<lparr>visitedCells = {}, consoleError = []\<rparr> 1 1) = Inr ERR" by simp
  from h1 h2 h4 b1 b2 b4 e1 e2 show ?thesis by blast
qed

text \<open>
  Claim C7 as stated also covers every numeric token that is not an integer. The token
  \<open>1.5\<close> is neither a reference nor an integer literal, but \<open>isNaN("1.5")\<close> is false, so
  the code accepts it and adds \<open>parseInt("1.5")\<close>, which is 1: the cell evaluates to 1,
  not to \<open>#ERR\<close>.
\<close>

theorem non_integer_numeric_token_counterexample:
  "\<not> cellRefRegex_test ''1.5'' \<and> \<not> isIntegerLiteral ''1.5'' \<and>
   evaluateCell (Some ''1.5'') [[''1'']] \<lparr>visitedCells = {}, consoleError = []\<rparr> 1 1
     = (Inr (Val (Num 1)), \<lparr>visitedCells = {}, consoleError = []\<rparr>)"
  by code_simp

section \<open>Termination of the evaluator\<close>

text \<open>
  \<open>evaluateCell\<close> terminates on every cell text, grid, visited set and dimensions: every
  input lies in the domain of the recursion (the part of the call relation of
  \<open>evaluateCell\<close> and its loop from which no infinite chain of calls starts), and with
  \<open>numRows\<close> rows in the grid the call returns a value and does not throw. The values a
  referenced cell can have are finitely many; at a reference whose cell content is
  already in the visited set the loop returns \<open>#ERR\<close> (caught as a cycle), and otherwise
  the recursive call runs with that content added to the set, which leaves strictly
  fewer cell values outside the set.
\<close>

lemma evaluateCell_recursion_terminates:
  "evaluateCell_forTokens_dom (Inl (cell, initialCells, st, numRows, numCols)) \<and>
   (numRows \<le> int (length initialCells) \<longrightarrow>
      (\<exists>out. fst (evaluateCell cell initialCells st numRows numCols) = Inr out)) \<and>
   (cellRefRegex_test token \<and> getCellIndices token = (row, col) \<and>
    inBounds row col numRows numCols \<and> lookupCell initialCells row col = Inr referencedCell \<longrightarrow>
      finite (cellValues initialCells) \<and> referencedCell \<in> cellValues initialCells \<and>
      (referencedCell \<in> visitedCells st \<longrightarrow>
         forTokens (token # tokens) acc initialCells st numRows numCols
           = (Inr ERR, logError (msgCircular token) st)) \<and>
      (referencedCell \<notin> visitedCells st \<longrightarrow>
         card (cellValues initialCells - insert referencedCell (visitedCells st))
           < card (cellValues initialCells - visitedCells st)))"
proof (intro conjI impI)
  show "evaluateCell_forTokens_dom (Inl (cell, initialCells, st, numRows, numCols))"
    using evaluateCell_forTokens_dom_all by blast
next
  assume "numRows \<le> int (length initialCells)"
  then show "\<exists>out. fst (evaluateCell cell initialCells st numRows numCols) = Inr out"
    by (rule no_throw(1))
next
  show "finite (cellValues initialCells)" by (rule finite_cellValues)
next
  assume "cellRefRegex_test token \<and> getCellIndices token = (row, col) \<and>
    inBounds row col numRows numCols \<and> lookupCell initialCells row col = Inr referencedCell"
  then show "referencedCell \<in> cellValues initialCells"
    by (auto dest: lookupCell_in_cellValues)
next
  assume "cellRefRegex_test token \<and> getCellIndices token = (row, col) \<and>
    inBounds row col numRows numCols \<and> lookupCell initialCells row col = Inr referencedCell"
    and "referencedCell \<in> visitedCells st"
  then show "forTokens (token # tokens) acc initialCells st numRows numCols
           = (Inr ERR, logError (msgCircular token) st)"
    by (auto intro: forTokens_circular)
next
  assume "cellRefRegex_test token \<and> getCellIndices token = (row, col) \<and>
    inBounds row col numRows numCols \<and> lookupCell initialCells row col = Inr referencedCell"
    and nb: "referencedCell \<notin> visitedCells st"
  then have "referencedCell \<in> cellValues initialCells"
    by (auto dest: lookupCell_in_cellValues)
  with nb show "card (cellValues initialCells - insert referencedCell (visitedCells st))
           < card (cellValues initialCells - visitedCells st)"
    by (intro psubset_card_mono) (auto simp: finite_cellValues)
qed

text \<open>
  Claim C10 says that \<open>evaluateCell\<close> runs to completion and yields an integer or the
  marker \<open>#ERR\<close>. The recursion does run to completion on every input, but what it
  yields need not be one of the two: on the cell text \<open>.5\<close>, with any grid, visited set
  and dimensions, the call is in the domain of the recursion and returns \<open>NaN\<close>. This is
  the defect of claim C3: \<open>isNaN\<close> lets the token pass and \<open>parseInt\<close> reads \<open>NaN\<close> from it.
\<close>

theorem evaluateCell_completes_with_NaN:
  "evaluateCell_forTokens_dom (Inl (Some ''.5'', initialCells, st, numRows, numCols)) \<and>
   evaluateCell (Some ''.5'') initialCells st numRows numCols = (Inr (Val NaN), st)"
proof
  show "evaluateCell_forTokens_dom (Inl (Some ''.5'', initialCells, st, numRows, numCols))"
    using evaluateCell_forTokens_dom_all by blast
next
  have t: "split '' '' ''.5'' = [''.5'']" by code_simp
  have b: "trim ''.5'' \<noteq> []" by code_simp
  have r: "\<not> cellRefRegex_test ''.5''" by code_simp
  have n: "\<not> jsIsNaN ''.5''" by code_simp
  have p: "parseInt ''.5'' = NaN" by code_simp
  show "evaluateCell (Some ''.5'') initialCells st numRows numCols = (Inr (Val NaN), st)"
    by (simp add: evaluateCell.simps t forTokens_literal [OF b r n] p)
qed

section \<open>Circular references\<close>

lemma inBounds_Num: "inBounds x y nr nc \<Longrightarrow> \<exists>r c. x = Num r \<and> y = Num c"
  by (cases x; cases y) (auto simp: inBounds_def)

lemma evaluateCell_None: "evaluateCell None g st nr nc = (Inr ERR, logError ''Empty cell value found. Defaulting to #ERR'' st)"
  by (simp add: evaluateCell.simps)

text \<open>
  When the loop returns a number, every cell its tokens refer to holds a text that was
  not in the visited set, and the recursive call into that cell ran with the text added
  to the set and returned a number.
\<close>

lemma forTokens_Val_target:
  assumes "forTokens ts a g st nr nc = (Inr (Val v), st')"
    and "q \<in> set (concat (map (tokenTarget nr nc) ts))"
  shows "\<exists>s st1 v1 st1'. cellText g q = Some s \<and> Some s \<notin> visitedCells st \<and>
           visitedCells st1 = insert (Some s) (visitedCells st) \<and>
           evaluateCell (Some s) g st1 nr nc = (Inr (Val v1), st1')"
  using assms
proof (induction ts arbitrary: a st)
  case Nil
  then show ?case by simp
next
  case (Cons token tokens)
  have ok: "tokenOk nr nc token"
    using forTokens_Val_tokens_ok[OF Cons.prems(1)] by simp
  then have nonempty: "trim token \<noteq> []" by (simp add: tokenOk_def)
  show ?case
  proof (cases "cellRefRegex_test token")
    case False
    with ok Cons.prems(1) nonempty
    have run: "forTokens tokens (jsAdd a (parseInt token)) g st nr nc = (Inr (Val v), st')"
      by (simp add: tokenOk_def forTokens_literal)
    from False Cons.prems(2) have "q \<in> set (concat (map (tokenTarget nr nc) tokens))"
      by (simp add: tokenTarget_def)
    from Cons.IH[OF run this] show ?thesis .
  next
    case True
    obtain x y where xy: "getCellIndices token = (x, y)" by (cases "getCellIndices token")
    with ok True have inb: "inBounds x y nr nc" by (simp add: tokenOk_def)
    then obtain r c where rc: "x = Num r" "y = Num c" using inBounds_Num by blast
    obtain b where b: "lookupCell g x y = Inr b"
      using Cons.prems(1) True xy inb
      by (cases "lookupCell g x y") (simp_all add: forTokens_type_error)
    have nb: "b \<notin> visitedCells st"
      using Cons.prems(1) True xy inb b by (auto simp: forTokens_circular)
    let ?st1 = "st\<lparr>visitedCells := insert b (visitedCells st)\<rparr>"
    obtain res st2 where rec: "evaluateCell b g ?st1 nr nc = (res, st2)"
      by (cases "evaluateCell b g ?st1 nr nc")
    from Cons.prems(1) True xy inb b nb rec
    obtain w where w: "res = Inr (Val w)"
      and run: "forTokens tokens (jsAdd a w) g (st2\<lparr>visitedCells := visitedCells st2 - {b}\<rparr>) nr nc
                 = (Inr (Val v), st')"
      by (cases res; simp add: forTokens_reference split: outcome.splits)
    obtain s where s: "b = Some s"
      using rec w by (cases b) (simp_all add: evaluateCell_None)
    have vis2: "visitedCells st2 = insert b (visitedCells st)"
      using visited_restored(1)[of b g ?st1 nr nc w st2] rec w by simp
    show ?thesis
    proof (cases "q \<in> set (tokenTarget nr nc token)")
      case True
      then have q: "q = (r, c)"
        using \<open>cellRefRegex_test token\<close> xy rc inb by (simp add: tokenTarget_def)
      have "cellText g q = Some s" using q b rc s by (simp add: cellText_def)
      moreover have "Some s \<notin> visitedCells st" using nb s by simp
      moreover have "visitedCells ?st1 = insert (Some s) (visitedCells st)" using s by simp
      moreover have "evaluateCell (Some s) g ?st1 nr nc = (Inr (Val w), st2)" using rec w s by simp
      ultimately show ?thesis by blast
    next
      case False
      with Cons.prems(2) have "q \<in> set (concat (map (tokenTarget nr nc) tokens))" by simp
      from Cons.IH[OF run this] vis2 nb show ?thesis by auto
    qed
  qed
qed

lemma evaluateCell_Val_target:
  assumes "evaluateCell (Some content) g st nr nc = (Inr (Val v), st')"
    and "q \<in> set (refTargets nr nc content)"
  shows "\<exists>s st1 v1 st1'. cellText g q = Some s \<and> Some s \<notin> visitedCells st \<and>
           visitedCells st1 = insert (Some s) (visitedCells st) \<and>
           evaluateCell (Some s) g st1 nr nc = (Inr (Val v1), st1')"
  using assms forTokens_Val_target[of "split '' '' content" "Num 0" g st nr nc v st' q]
  by (simp add: evaluateCell.simps refTargets_def)

text \<open>
  Along a chain of references from a cell whose evaluation returns a number, every cell
  was evaluated to a number too, from a larger visited set that holds its text.
\<close>

lemma reach_success:
  assumes "(p, q) \<in> (references g nr nc)\<^sup>+"
    and "cellText g p = Some sp"
    and "evaluateCell (Some sp) g st nr nc = (Inr (Val v), st')"
  shows "\<exists>sq st2 v2 st2'. cellText g q = Some sq \<and> Some sq \<notin> visitedCells st \<and>
           visitedCells st \<subseteq> visitedCells st2 \<and> Some sq \<in> visitedCells st2 \<and>
           evaluateCell (Some sq) g st2 nr nc = (Inr (Val v2), st2')"
  using assms(1)
proof (induction rule: trancl_induct)
  case (base y)
  then have "y \<in> set (refTargets nr nc sp)"
    using assms(2) by (auto simp: references_def)
  from evaluateCell_Val_target[OF assms(3) this] show ?case by auto
next
  case (step y z)
  then obtain sy st2 v2 st2' where y: "cellText g y = Some sy" "Some sy \<notin> visitedCells st"
    "visitedCells st \<subseteq> visitedCells st2" "Some sy \<in> visitedCells st2"
    "evaluateCell (Some sy) g st2 nr nc = (Inr (Val v2), st2')"
    by blast
  from step(2) y(1) have "z \<in> set (refTargets nr nc sy)"
    by (auto simp: references_def)
  from evaluateCell_Val_target[OF y(5) this]
  obtain sz st3 v3 st3' where z: "cellText g z = Some sz" "Some sz \<notin> visitedCells st2"
    "visitedCells st3 = insert (Some sz) (visitedCells st2)"
    "evaluateCell (Some sz) g st3 nr nc = (Inr (Val v3), st3')"
    by blast
  have "Some sz \<notin> visitedCells st" using z(2) y(3) by auto
  moreover have "visitedCells st \<subseteq> visitedCells st3" using z(3) y(3) by auto
  moreover have "Some sz \<in> visitedCells st3" using z(3) by simp
  ultimately show ?case using z(1) z(4) by blast
qed

lemma cycle_not_Val:
  assumes "(p, p) \<in> (references g nr nc)\<^sup>+" and "cellText g p = Some sp"
  shows "evaluateCell (Some sp) g st nr nc \<noteq> (Inr (Val v), st')"
proof
  assume a: "evaluateCell (Some sp) g st nr nc = (Inr (Val v), st')"
  from reach_success[OF assms(1) assms(2) a] assms(2)
  obtain st2 v2 st2' where 2: "Some sp \<in> visitedCells st2"
    "evaluateCell (Some sp) g st2 nr nc = (Inr (Val v2), st2')"
    by auto
  from reach_success[OF assms(1) assms(2) 2(2)] assms(2)
  have "Some sp \<notin> visitedCells st2" by auto
  with 2(1) show False by simp
qed

lemma reaches_cycle_not_Val:
  assumes "q \<in> set (refTargets nr nc content)"
    and "(q, p) \<in> (references g nr nc)\<^sup>*"
    and "(p, p) \<in> (references g nr nc)\<^sup>+"
  shows "evaluateCell (Some content) g st nr nc \<noteq> (Inr (Val v), st')"
proof
  assume a: "evaluateCell (Some content) g st nr nc = (Inr (Val v), st')"
  from evaluateCell_Val_target[OF a assms(1)]
  obtain sq st1 v1 st1' where q: "cellText g q = Some sq"
    "evaluateCell (Some sq) g st1 nr nc = (Inr (Val v1), st1')"
    by blast
  show False
  proof (cases "q = p")
    case True
    with cycle_not_Val[OF assms(3)] q show False by blast
  next
    case False
    with assms(2) have "(q, p) \<in> (references g nr nc)\<^sup>+" by (simp add: rtrancl_eq_or_trancl)
    from reach_success[OF this q(1) q(2)]
    obtain sp st2 v2 st2' where "cellText g p = Some sp"
      "evaluateCell (Some sp) g st2 nr nc = (Inr (Val v2), st2')"
      by blast
    with cycle_not_Val[OF assms(3)] show False by blast
  qed
qed


text \<open>
  Claim C5. A cell whose chain of references returns to a cell already on the
  resolution path evaluates to \<open>#ERR\<close>: if the text refers to a cell \<open>q\<close>, the references
  lead from \<open>q\<close> to a cell \<open>p\<close>, and \<open>p\<close> lies on a cycle of references (of length one, a
  cell that refers to itself, or longer), then \<open>evaluateCell\<close> returns \<open>#ERR\<close> on that text
  from every visited set, in every grid that has its \<open>numRows\<close> rows.
\<close>

theorem cyclic_reference_is_error:
  assumes "numRows \<le> int (length initialCells)"
    and "q \<in> set (refTargets numRows numCols content)"
    and "(q, p) \<in> (references initialCells numRows numCols)\<^sup>*"
    and "(p, p) \<in> (references initialCells numRows numCols)\<^sup>+"
  shows "fst (evaluateCell (Some content) initialCells st numRows numCols) = Inr ERR"
proof -
  obtain out where o: "fst (evaluateCell (Some content) initialCells st numRows numCols) = Inr out"
    using no_throw(1)[OF assms(1)] by blast
  have "out \<noteq> Val v" for v
    using reaches_cycle_not_Val[OF assms(2,3,4), of st v] o
    by (cases "evaluateCell (Some content) initialCells st numRows numCols") auto
  with o show ?thesis by (cases out) auto
qed


theorem cyclic_reference_is_error_witness:
  "((0, 0), (0, 0)) \<in> (references [[''A1''], [], []] 3 3)\<^sup>+ \<and>
   fst (evaluateCell (Some ''A1'') [[''A1''], [], []]
          \<lparr>visitedCells = {}, consoleError = []\<rparr> 3 3) = Inr ERR \<and>
   ((0, 0), (0, 0)) \<in> (references [[''B1'', ''A1 2'']] 1 2)\<^sup>+ \<and>
   fst (evaluateCell (Some ''B1'') [[''B1'', ''A1 2'']]
          \<lparr>visitedCells = {}, consoleError = []\<rparr> 1 2) = Inr ERR"
proof -
  have t1: "cellText [[''A1''], [], []] (0, 0) = Some ''A1''" by code_simp
  have r1: "(0, 0) \<in> set (refTargets 3 3 ''A1'')" by code_simp
  have e1: "((0, 0), (0, 0)) \<in> references [[''A1''], [], []] 3 3"
    using t1 r1 by (auto simp: references_def)
  then have c1: "((0, 0), (0, 0)) \<in> (references [[''A1''], [], []] 3 3)\<^sup>+" by blast
  have t2: "cellText [[''B1'', ''A1 2'']] (0, 0) = Some ''B1''"
    "cellText [[''B1'', ''A1 2'']] (0, 1) = Some ''A1 2''" by code_simp+
  have r2: "(0, 1) \<in> set (refTargets 1 2 ''B1'')" "(0, 0) \<in> set (refTargets 1 2 ''A1 2'')"
    by code_simp+
  have e2: "((0, 0), (0, 1)) \<in> references [[''B1'', ''A1 2'']] 1 2"
    "((0, 1), (0, 0)) \<in> references [[''B1'', ''A1 2'']] 1 2"
    using t2 r2 by (auto simp: references_def)
  then have c2: "((0, 0), (0, 0)) \<in> (references [[''B1'', ''A1 2'']] 1 2)\<^sup>+"
    and q2: "((0, 1), (0, 0)) \<in> (references [[''B1'', ''A1 2'']] 1 2)\<^sup>*"
    by (blast intro: trancl_into_trancl)+
  have "fst (evaluateCell (Some ''A1'') [[''A1''], [], []]
          \<lparr>visitedCells = {}, consoleError = []\<rparr> 3 3) = Inr ERR"
    by (rule cyclic_reference_is_error [OF _ r1 _ c1]) simp_all
  moreover have "fst (evaluateCell (Some ''B1'') [[''B1'', ''A1 2'']]
          \<lparr>visitedCells = {}, consoleError = []\<rparr> 1 2) = Inr ERR"
    by (rule cyclic_reference_is_error [OF _ r2(1) q2 c2]) simp
  ultimately show ?thesis using c1 c2 by simp
qed

section \<open>The calls the driver makes\<close>


lemma finalState_append: "finalState s (xs @ ys) = finalState (finalState s xs) ys"
  by (induction xs arbitrary: s) auto











section \<open>A row with the wrong number of fields\<close>



lemma populateCols_length: "length (populateCols values cols cells) = length cells"
  by (induction cols arbitrary: cells) auto













section \<open>The visited set holds cell texts\<close>

text \<open>
  The one-row grid \<open>C1,D1,x,x\<close>: the first cell refers to the third and the second to
  the fourth, and these are all the references, so the grid has no cycle.
\<close>

lemma example_grid_cells:
  assumes "cellText [[''C1'', ''D1'', ''x'', ''x'']] p = Some s"
  shows "(p = (0, 0) \<and> s = ''C1'') \<or> (p = (0, 1) \<and> s = ''D1'') \<or>
         (p = (0, 2) \<and> s = ''x'') \<or> (p = (0, 3) \<and> s = ''x'')"
proof -
  obtain r c where p: "p = (r, c)" by (cases p)
  from assms p have r: "r = 0" and c: "0 \<le> c" "c < 4"
    by (auto simp: cellText_def lookupCell_def split: option.splits if_splits)
  from c have "c = 0 \<or> c = 1 \<or> c = 2 \<or> c = 3" by auto
  with assms p r show ?thesis
    by (auto simp: cellText_def lookupCell_def)
qed

lemma example_grid_references:
  "references [[''C1'', ''D1'', ''x'', ''x'']] 1 4 \<subseteq> {((0, 0), (0, 2)), ((0, 1), (0, 3))}"
proof -
  have t: "refTargets 1 4 ''C1'' = [(0, 2)]" "refTargets 1 4 ''D1'' = [(0, 3)]"
    "refTargets 1 4 ''x'' = []" by code_simp+
  show ?thesis
    using example_grid_cells t by (fastforce simp: references_def)
qed

lemma example_grid_acyclic: "acyclic (references [[''C1'', ''D1'', ''x'', ''x'']] 1 4)"
proof -
  have "references [[''C1'', ''D1'', ''x'', ''x'']] 1 4 \<subseteq> measure (\<lambda>p. nat (snd p))"
    using example_grid_references by auto
  then have "wf (references [[''C1'', ''D1'', ''x'', ''x'']] 1 4)"
    by (rule wf_subset[OF wf_measure])
  then show ?thesis by (rule wf_acyclic)
qed

text \<open>
  Claim C2. When the loop reaches a reference to a cell inside the bounds, it looks the
  text of that cell up in the visited set: if the text is there it reports a circular
  dependency and returns \<open>#ERR\<close>, otherwise it adds the text (not the position) and
  recurses. Consequently two different cells with the same text can make \<open>evaluateCell\<close>
  report a circular dependency in a grid without cycles. In the grid that \<open>processCSV\<close>
  builds from \<open>C1,D1,x,x\<close>, which has no cycle, the third and the fourth cell both hold
  \<open>x\<close>; the evaluation of the first cell leaves \<open>x\<close> in the set, and the call for the
  second cell, which refers to the fourth, returns \<open>#ERR\<close> with the circular-dependency
  diagnostic.
\<close>

theorem visited_set_holds_cell_texts:
  "(cellRefRegex_test token \<and> getCellIndices token = (row, col) \<and>
    inBounds row col numRows numCols \<and> lookupCell initialCells row col = Inr referencedCell \<longrightarrow>
      (referencedCell \<in> visitedCells st \<longrightarrow>
         forTokens (token # tokens) acc initialCells st numRows numCols
           = (Inr ERR, logError (msgCircular token) st)) \<and>
      (referencedCell \<notin> visitedCells st \<longrightarrow>
         forTokens (token # tokens) acc initialCells st numRows numCols
           = (case evaluateCell referencedCell initialCells
                     (st\<lparr>visitedCells := insert referencedCell (visitedCells st)\<rparr>)
                     numRows numCols of
                (Inl e, st') \<Rightarrow> (Inl e, st')
              | (Inr ERR, st') \<Rightarrow> (Inr ERR, st')
              | (Inr (Val refValue), st') \<Rightarrow>
                  forTokens tokens (jsAdd acc refValue) initialCells
                    (st'\<lparr>visitedCells := visitedCells st' - {referencedCell}\<rparr>)
                    numRows numCols))) \<and>
   acyclic (references [[''C1'', ''D1'', ''x'', ''x'']] 1 4) \<and>
   cellText [[''C1'', ''D1'', ''x'', ''x'']] (0, 2) = Some ''x'' \<and>
   cellText [[''C1'', ''D1'', ''x'', ''x'']] (0, 3) = Some ''x'' \<and>
   populateCells [''C1,D1,x,x''] 1 4 (replicate 1 (replicate 4 []))
     = Inr [[''C1'', ''D1'', ''x'', ''x'']] \<and>
   calls (snd (processCSV ''C1,D1,x,x'')) ! 1
     = (Some ''D1'', \<lparr>visitedCells = {Some ''x''}, consoleError = [msgInvalid ''x'']\<rparr>,
        Inr ERR,
        \<lparr>visitedCells = {Some ''x''},
           consoleError = [msgInvalid ''x'', msgCircular ''D1'']\<rparr>) \<and>
   evaluateCell (Some ''D1'') [[''C1'', ''D1'', ''x'', ''x'']]
       \<lparr>visitedCells = {Some ''x''}, consoleError = [msgInvalid ''x'']\<rparr> 1 4
     = (Inr ERR, \<lparr>visitedCells = {Some ''x''},
                   consoleError = [msgInvalid ''x'', msgCircular ''D1'']\<rparr>)"
proof (intro conjI impI)
  assume "cellRefRegex_test token \<and> getCellIndices token = (row, col) \<and>
    inBounds row col numRows numCols \<and> lookupCell initialCells row col = Inr referencedCell"
    and "referencedCell \<in> visitedCells st"
  then show "forTokens (token # tokens) acc initialCells st numRows numCols
           = (Inr ERR, logError (msgCircular token) st)"
    by (auto intro: forTokens_circular)
next
  assume "cellRefRegex_test token \<and> getCellIndices token = (row, col) \<and>
    inBounds row col numRows numCols \<and> lookupCell initialCells row col = Inr referencedCell"
    and "referencedCell \<notin> visitedCells st"
  then show "forTokens (token # tokens) acc initialCells st numRows numCols
           = (case evaluateCell referencedCell initialCells
                     (st\<lparr>visitedCells := insert referencedCell (visitedCells st)\<rparr>)
                     numRows numCols of
                (Inl e, st') \<Rightarrow> (Inl e, st')
              | (Inr ERR, st') \<Rightarrow> (Inr ERR, st')
              | (Inr (Val refValue), st') \<Rightarrow>
                  forTokens tokens (jsAdd acc refValue) initialCells
                    (st'\<lparr>visitedCells := visitedCells st' - {referencedCell}\<rparr>)
                    numRows numCols)"
    by (auto intro: forTokens_reference)
next
  show "acyclic (references [[''C1'', ''D1'', ''x'', ''x'']] 1 4)"
    by (rule example_grid_acyclic)
next
  show "cellText [[''C1'', ''D1'', ''x'', ''x'']] (0, 2) = Some ''x''" by code_simp
next
  show "cellText [[''C1'', ''D1'', ''x'', ''x'']] (0, 3) = Some ''x''" by code_simp
next
  show "populateCells [''C1,D1,x,x''] 1 4 (replicate 1 (replicate 4 []))
     = Inr [[''C1'', ''D1'', ''x'', ''x'']]" by code_simp
next
  show "calls (snd (processCSV ''C1,D1,x,x'')) ! 1
     = (Some ''D1'', \<lparr>visitedCells = {Some ''x''}, consoleError = [msgInvalid ''x'']\<rparr>,
        Inr ERR,
        \<lparr>visitedCells = {Some ''x''},
           consoleError = [msgInvalid ''x'', msgCircular ''D1'']\<rparr>)" by code_simp
next
  show "evaluateCell (Some ''D1'') [[''C1'', ''D1'', ''x'', ''x'']]
       \<lparr>visitedCells = {Some ''x''}, consoleError = [msgInvalid ''x'']\<rparr> 1 4
     = (Inr ERR, \<lparr>visitedCells = {Some ''x''},
                   consoleError = [msgInvalid ''x'', msgCircular ''D1'']\<rparr>)" by code_simp
qed

theorem visited_set_holds_cell_texts_witness:
  "lookupCell [[''C1'', ''D1'', ''x'', ''x'']] (Num 0) (Num 3) = Inr (Some ''x'') \<and>
   forTokens [''D1''] (Num 0) [[''C1'', ''D1'', ''x'', ''x'']]
       \<lparr>visitedCells = {Some ''x''}, consoleError = []\<rparr> 1 4
     = (Inr ERR, \<lparr>visitedCells = {Some ''x''}, consoleError = [msgCircular ''D1'']\<rparr>)"
proof -
  have h1: "cellRefRegex_test ''D1''" by code_simp
  have h2: "getCellIndices ''D1'' = (Num 0, Num 3)" by code_simp
  have h3: "inBounds (Num 0) (Num 3) 1 4" by (simp add: inBounds_def)
  have h4: "lookupCell [[''C1'', ''D1'', ''x'', ''x'']] (Num 0) (Num 3) = Inr (Some ''x'')"
    by code_simp
  from visited_set_holds_cell_texts [of "''D1''" "Num 0" "Num 3" 1 4
      "[[''C1'', ''D1'', ''x'', ''x'']]" "Some ''x''"
      "\<lparr>visitedCells = {Some ''x''}, consoleError = []\<rparr>" "[]" "Num 0"] h1 h2 h3 h4
  show ?thesis by (simp add: logError_def)
qed


end
